theory Spec2Isabelle
  imports Complex_Main "HOL-Library.AList"
begin

section \<open>Python values\<close>

text \<open>
  The jobs of the repository are Python functions over dynamically typed JSON/BSON data:
  route and dispatch payloads of the tracking API and documents of the document store.
  A value is \<^typ>\<open>bool\<close>, an unbounded integer, a float, a string, a list, a dictionary
  with string keys (kept as an association list, in insertion order), a datetime as the
  store returns it (milliseconds since the epoch) or an object identifier of the store.

  A float is not-a-number, an infinity (\<open>FInf True\<close> is the positive one) or finite; a
  finite float carries its value and the text \<open>repr\<close> prints for it, since only its
  classification, its truth value, its comparison with integers in store queries and its
  printed form are used by the code.

  A string is a list of code points; \<^typ>\<open>char\<close> covers U+0000 to U+00FF.
\<close>

datatype error = AttributeError | KeyError | ValueError | APIError

datatype pyfloat = FNaN | FInf bool | FFin rat string

datatype pyval =
    PNone
  | PBool bool
  | PInt int
  | PFloat pyfloat
  | PStr string
  | PList "pyval list"
  | PDict "(string \<times> pyval) list"
  | PDate nat
  | POid nat

type_synonym doc = "(string \<times> pyval) list"

text \<open>Sequencing of computations that may raise: the first exception wins.\<close>

definition ebind :: "error + 'a \<Rightarrow> ('a \<Rightarrow> error + 'b) \<Rightarrow> error + 'b" where
  "ebind m f = (case m of Inl e \<Rightarrow> Inl e | Inr x \<Rightarrow> f x)"

subsection \<open>Truth value, attribute access\<close>

text \<open>\<open>bool(x)\<close>, as \<open>if x\<close>, \<open>not x\<close> and \<open>x or y\<close> use it.\<close>

fun py_truthy :: "pyval \<Rightarrow> bool" where
  "py_truthy PNone = False"
| "py_truthy (PBool b) = b"
| "py_truthy (PInt i) = (i \<noteq> 0)"
| "py_truthy (PFloat (FFin r s)) = (r \<noteq> 0)"
| "py_truthy (PFloat f) = True"
| "py_truthy (PStr s) = (s \<noteq> [])"
| "py_truthy (PList xs) = (xs \<noteq> [])"
| "py_truthy (PDict kvs) = (kvs \<noteq> [])"
| "py_truthy (PDate n) = True"
| "py_truthy (POid n) = True"

definition py_or :: "pyval \<Rightarrow> pyval \<Rightarrow> pyval" where
  "py_or x y = (if py_truthy x then x else y)"

text \<open>\<open>d.get(k)\<close> on a dictionary; \<open>None\<close> for a missing key.\<close>

definition dict_get :: "doc \<Rightarrow> string \<Rightarrow> pyval" where
  "dict_get d k = (case map_of d k of None \<Rightarrow> PNone | Some v \<Rightarrow> v)"

text \<open>\<open>x.get(k)\<close> on any value: only a dictionary has the method.\<close>

fun py_get :: "pyval \<Rightarrow> string \<Rightarrow> error + pyval" where
  "py_get (PDict d) k = Inr (dict_get d k)"
| "py_get v k = Inl AttributeError"

text \<open>\<open>x[k]\<close> on a dictionary raises \<open>KeyError\<close> for a missing key.\<close>

definition dict_index :: "doc \<Rightarrow> string \<Rightarrow> error + pyval" where
  "dict_index d k = (case map_of d k of None \<Rightarrow> Inl KeyError | Some v \<Rightarrow> Inr v)"

subsection \<open>String methods\<close>

text \<open>
  \<open>str.strip\<close> removes leading and trailing whitespace: U+0009 to U+000D, U+001C to
  U+0020, U+0085 and U+00A0 are the whitespace code points below U+0100.
\<close>

definition is_space :: "char \<Rightarrow> bool" where
  "is_space c = (let n = (of_char c :: nat)
     in (9 \<le> n \<and> n \<le> 13) \<or> (28 \<le> n \<and> n \<le> 32) \<or> n = 133 \<or> n = 160)"

definition strip :: "string \<Rightarrow> string" where
  "strip s = rev (dropWhile is_space (rev (dropWhile is_space s)))"

text \<open>\<open>str.lower\<close>: the upper-case letters below U+0100 are A to Z and U+00C0 to U+00DE
  without the multiplication sign U+00D7.\<close>

definition lower_char :: "char \<Rightarrow> char" where
  "lower_char c = (let n = (of_char c :: nat)
     in if (65 \<le> n \<and> n \<le> 90) \<or> (192 \<le> n \<and> n \<le> 222 \<and> n \<noteq> 215)
        then char_of (n + 32) else c)"

definition py_lower :: "string \<Rightarrow> string" where
  "py_lower s = map lower_char s"

text \<open>
  \<open>str.upper\<close>: a to z and U+00E0 to U+00FE (without the division sign U+00F7) move
  down by 32 and the sharp s U+00DF becomes \<open>SS\<close>. The upper-case forms of U+00B5 and U+00FF
  lie above U+00FF; the model keeps these two characters, which like their upper-case
  forms differ from every ASCII character (the code compares the result with an ASCII text
  only).
\<close>

definition upper_chars :: "char \<Rightarrow> string" where
  "upper_chars c = (let n = (of_char c :: nat)
     in if (97 \<le> n \<and> n \<le> 122) \<or> (224 \<le> n \<and> n \<le> 254 \<and> n \<noteq> 247)
        then [char_of (n - 32)]
        else if n = 223 then ''SS'' else [c])"

definition py_upper :: "string \<Rightarrow> string" where
  "py_upper s = concat (map upper_chars s)"

text \<open>
  \<open>str.isdigit\<close> holds for a non-empty string of digit characters. Below U+0100 these
  are the decimal digits 0 to 9 and the superscript digits U+00B2, U+00B3 and U+00B9.
  \<open>int(s)\<close> on such a string accepts the decimal digits only and raises \<open>ValueError\<close>
  otherwise.
\<close>

definition is_decimal :: "char \<Rightarrow> bool" where
  "is_decimal c = (let n = (of_char c :: nat) in 48 \<le> n \<and> n \<le> 57)"

definition is_digit :: "char \<Rightarrow> bool" where
  "is_digit c = (let n = (of_char c :: nat)
     in (48 \<le> n \<and> n \<le> 57) \<or> n = 178 \<or> n = 179 \<or> n = 185)"

definition py_isdigit :: "string \<Rightarrow> bool" where
  "py_isdigit s = (s \<noteq> [] \<and> list_all is_digit s)"

definition digit_val :: "char \<Rightarrow> nat" where
  "digit_val c = (of_char c :: nat) - 48"

definition py_int :: "string \<Rightarrow> error + int" where
  "py_int s = (if s \<noteq> [] \<and> list_all is_decimal s
     then Inr (int (foldl (\<lambda>a c. 10 * a + digit_val c) 0 s))
     else Inl ValueError)"

subsection \<open>Printing: \<open>str\<close> and \<open>repr\<close>\<close>

fun show_nat :: "nat \<Rightarrow> string" where
  "show_nat n = (if n < 10 then [char_of (48 + n)]
     else show_nat (n div 10) @ [char_of (48 + n mod 10)])"

declare show_nat.simps [simp del]

definition show_int :: "int \<Rightarrow> string" where
  "show_int i = (if i < 0 then CHR ''-'' # show_nat (nat (- i)) else show_nat (nat i))"

text \<open>\<open>pad w s\<close> fills with zeros on the left, as the format \<open>%0wd\<close> does.\<close>

definition pad :: "nat \<Rightarrow> string \<Rightarrow> string" where
  "pad w s = replicate (w - length s) CHR ''0'' @ s"

definition hex_digit :: "nat \<Rightarrow> char" where
  "hex_digit n = (if n < 10 then char_of (48 + n) else char_of (87 + n))"

fun show_hex :: "nat \<Rightarrow> string" where
  "show_hex n = (if n < 16 then [hex_digit n]
     else show_hex (n div 16) @ [hex_digit (n mod 16)])"

declare show_hex.simps [simp del]

fun join :: "string \<Rightarrow> string list \<Rightarrow> string" where
  "join sep [] = []"
| "join sep [x] = x"
| "join sep (x # y # ys) = x @ sep @ join sep (y # ys)"

text \<open>
  \<open>repr\<close> of a string: in single quotes, or in double quotes when the text has a single
  quote and no double quote; the backslash, the chosen quote, tab, newline and carriage
  return are escaped by a backslash, the other non-printable code points (the controls,
  U+007F to U+00A0 and U+00AD) as \<open>\xhh\<close>.
\<close>

definition escape_char :: "char \<Rightarrow> char \<Rightarrow> string" where
  "escape_char q c = (let n = (of_char c :: nat)
     in if n = 92 then [CHR 0x5C, CHR 0x5C]
        else if c = q then [CHR 0x5C, q]
        else if n = 9 then [CHR 0x5C, CHR ''t'']
        else if n = 10 then [CHR 0x5C, CHR ''n'']
        else if n = 13 then [CHR 0x5C, CHR ''r'']
        else if n < 32 \<or> (127 \<le> n \<and> n \<le> 160) \<or> n = 173
          then [CHR 0x5C, CHR ''x''] @ pad 2 (show_hex n)
        else [c])"

definition repr_str :: "string \<Rightarrow> string" where
  "repr_str s = (let q = (if CHR 0x27 \<in> set s \<and> CHR 0x22 \<notin> set s then CHR 0x22 else CHR 0x27)
     in [q] @ concat (map (escape_char q) s) @ [q])"

definition repr_float :: "pyfloat \<Rightarrow> string" where
  "repr_float f = (case f of FNaN \<Rightarrow> ''nan''
     | FInf pos \<Rightarrow> (if pos then ''inf'' else ''-inf'')
     | FFin r s \<Rightarrow> s)"

text \<open>
  The calendar date of a day number counted from 1970-01-01 (proleptic Gregorian calendar),
  as year, month and day.
\<close>

definition civil_from_days :: "nat \<Rightarrow> nat \<times> nat \<times> nat" where
  "civil_from_days z0 = (let z = z0 + 719468;
       era = z div 146097;
       doe = z - era * 146097;
       yoe = (doe - doe div 1460 + doe div 36524 - doe div 146096) div 365;
       doy = doe - (365 * yoe + yoe div 4 - yoe div 100);
       mp = (5 * doy + 2) div 153;
       d = doy - (153 * mp + 2) div 5 + 1;
       m = (if mp < 10 then mp + 3 else mp - 9);
       y = yoe + era * 400 + (if m \<le> 2 then 1 else 0)
     in (y, m, d))"

text \<open>\<open>str\<close> and \<open>repr\<close> of a datetime without time zone, of millisecond precision.\<close>

definition str_date :: "nat \<Rightarrow> string" where
  "str_date ms = (let (y, m, d) = civil_from_days (ms div 86400000);
       t = ms mod 86400000;
       frac = t mod 1000
     in pad 4 (show_nat y) @ ''-'' @ pad 2 (show_nat m) @ ''-'' @ pad 2 (show_nat d) @ '' ''
        @ pad 2 (show_nat (t div 3600000)) @ '':''
        @ pad 2 (show_nat (t div 60000 mod 60)) @ '':''
        @ pad 2 (show_nat (t div 1000 mod 60))
        @ (if frac = 0 then [] else ''.'' @ pad 6 (show_nat (frac * 1000))))"

definition repr_date :: "nat \<Rightarrow> string" where
  "repr_date ms = (let (y, m, d) = civil_from_days (ms div 86400000);
       t = ms mod 86400000;
       sec = t div 1000 mod 60;
       frac = t mod 1000
     in ''datetime.datetime('' @ show_nat y @ '', '' @ show_nat m @ '', '' @ show_nat d
        @ '', '' @ show_nat (t div 3600000) @ '', '' @ show_nat (t div 60000 mod 60)
        @ (if sec = 0 \<and> frac = 0 then [] else '', '' @ show_nat sec)
        @ (if frac = 0 then [] else '', '' @ show_nat (frac * 1000))
        @ '')'')"

definition str_oid :: "nat \<Rightarrow> string" where
  "str_oid n = pad 24 (show_hex n)"

primrec py_repr :: "pyval \<Rightarrow> string" where
  "py_repr PNone = ''None''"
| "py_repr (PBool b) = (if b then ''True'' else ''False'')"
| "py_repr (PInt i) = show_int i"
| "py_repr (PFloat f) = repr_float f"
| "py_repr (PStr s) = repr_str s"
| "py_repr (PList xs) = ''['' @ join '', '' (map py_repr xs) @ '']''"
| "py_repr (PDict kvs) =
     ''{'' @ join '', '' (map (\<lambda>(k, r). repr_str k @ '': '' @ r) (map (map_prod id py_repr) kvs))
     @ ''}''"
| "py_repr (PDate ms) = repr_date ms"
| "py_repr (POid n) = ''ObjectId('' @ [CHR 0x27] @ str_oid n @ [CHR 0x27] @ '')''"

definition py_str :: "pyval \<Rightarrow> string" where
  "py_str v = (case v of PStr s \<Rightarrow> s | PDate ms \<Rightarrow> str_date ms | POid n \<Rightarrow> str_oid n
     | _ \<Rightarrow> py_repr v)"

section \<open>The code normalizer (\<open>backfill_substatus.py\<close>)\<close>

definition is_bad_number :: "pyval \<Rightarrow> bool" where
  "is_bad_number v = (case v of PFloat FNaN \<Rightarrow> True | PFloat (FInf b) \<Rightarrow> True | _ \<Rightarrow> False)"

definition normalize_code :: "pyval \<Rightarrow> string option" where
  "normalize_code code =
    (if code = PNone then None
     else if is_bad_number code then None
     else let s = strip (py_str code)
          in if s = [] \<or> py_lower s = ''nan'' then None else Some s)"

text \<open>
  The set of variants holds a string and at most one integer, which are never equal, so a
  duplicate-free list stands for it.
\<close>

definition code_variants :: "pyval \<Rightarrow> error + pyval list option" where
  "code_variants code =
    (case normalize_code code of
       None \<Rightarrow> Inr None
     | Some s \<Rightarrow>
         if py_isdigit s
         then ebind (py_int s) (\<lambda>n. Inr (Some [PStr s, PInt n]))
         else Inr (Some [PStr s]))"

section \<open>The document store\<close>

text \<open>
  A collection is the list of its documents, in insertion order. The driver is used through
  \<open>find\<close>, \<open>find_one\<close>, \<open>update_one\<close> and \<open>bulk_write\<close> only, with filters that are
  conjunctions of conditions on top-level fields: equality, \<open>$ne\<close>, \<open>$in\<close> and \<open>$exists\<close>.

  Equality of the store compares numbers by value across integer and float; a field holding
  an array also matches a value that one of its elements equals; a filter on \<open>None\<close>
  also matches a document without the field.
\<close>

datatype cond = Eq pyval | Ne pyval | In "pyval list" | Exists bool

type_synonym query = "(string \<times> cond) list"

fun bson_eq :: "pyval \<Rightarrow> pyval \<Rightarrow> bool" where
  "bson_eq (PInt i) (PFloat (FFin r s)) = (of_int i = r)"
| "bson_eq (PFloat (FFin r s)) (PInt i) = (r = of_int i)"
| "bson_eq (PFloat (FFin r s)) (PFloat (FFin r' s')) = (r = r')"
| "bson_eq a b = (a = b)"

definition field_matches :: "pyval \<Rightarrow> pyval \<Rightarrow> bool" where
  "field_matches fv v =
    (bson_eq fv v \<or> (case fv of PList xs \<Rightarrow> list_ex (\<lambda>x. bson_eq x v) xs | _ \<Rightarrow> False))"

definition eq_holds :: "pyval option \<Rightarrow> pyval \<Rightarrow> bool" where
  "eq_holds f v = (case f of None \<Rightarrow> v = PNone | Some fv \<Rightarrow> field_matches fv v)"

fun cond_holds :: "pyval option \<Rightarrow> cond \<Rightarrow> bool" where
  "cond_holds f (Eq v) = eq_holds f v"
| "cond_holds f (Ne v) = (\<not> eq_holds f v)"
| "cond_holds f (In vs) = list_ex (eq_holds f) vs"
| "cond_holds f (Exists b) = ((f \<noteq> None) = b)"

definition matches :: "doc \<Rightarrow> query \<Rightarrow> bool" where
  "matches d q = list_all (\<lambda>(k, c). cond_holds (map_of d k) c) q"

definition find_docs :: "query \<Rightarrow> doc list \<Rightarrow> doc list" where
  "find_docs q coll = filter (\<lambda>d. matches d q) coll"

definition find_one :: "query \<Rightarrow> doc list \<Rightarrow> doc option" where
  "find_one q coll = List.find (\<lambda>d. matches d q) coll"

text \<open>A projection keeps the listed top-level fields.\<close>

definition project :: "string list \<Rightarrow> doc \<Rightarrow> doc" where
  "project ks d = filter (\<lambda>(k, v). k \<in> set ks) d"

text \<open>\<open>$set\<close>: each field is overwritten in place, or added at the end.\<close>

fun set_fields :: "doc \<Rightarrow> doc \<Rightarrow> doc" where
  "set_fields [] d = d"
| "set_fields ((k, v) # st) d = set_fields st (AList.update k v d)"

text \<open>\<open>update_one(q, {"$set": st})\<close> changes the first document that matches.\<close>

fun update_one :: "query \<Rightarrow> doc \<Rightarrow> doc list \<Rightarrow> doc list" where
  "update_one q st [] = []"
| "update_one q st (d # ds) =
    (if matches d q then set_fields st d # ds else d # update_one q st ds)"

text \<open>
  \<open>update_one(q, {"$set": st, "$setOnInsert": soi}, upsert=True)\<close>: when no document matches,
  a document is inserted that holds a new identifier, the equality fields of the filter,
  the \<open>$set\<close> fields and the \<open>$setOnInsert\<close> fields.
\<close>

definition eq_fields :: "query \<Rightarrow> doc" where
  "eq_fields q = concat (map (\<lambda>(k, c). case c of Eq v \<Rightarrow> [(k, v)] | _ \<Rightarrow> []) q)"

fun max_oid :: "doc list \<Rightarrow> nat" where
  "max_oid [] = 0"
| "max_oid (d # ds) =
    (case map_of d ''_id'' of Some (POid n) \<Rightarrow> max n (max_oid ds) | _ \<Rightarrow> max_oid ds)"

definition upsert_one :: "query \<Rightarrow> doc \<Rightarrow> doc \<Rightarrow> doc list \<Rightarrow> doc list" where
  "upsert_one q st soi coll =
    (if list_ex (\<lambda>d. matches d q) coll then update_one q st coll
     else coll @ [set_fields soi (set_fields st
            ((''_id'', POid (Suc (max_oid coll))) # eq_fields q))])"

text \<open>
  A bulk operation of upserts. \<open>bulk_write(ops, ordered=False)\<close> leaves the order of
  execution to the store; the model executes the operations in the order of the list.
\<close>

datatype upsert_op = UpdateOne query doc doc

fun apply_op :: "doc list \<Rightarrow> upsert_op \<Rightarrow> doc list" where
  "apply_op coll (UpdateOne q st soi) = upsert_one q st soi coll"

definition bulk_write :: "upsert_op list \<Rightarrow> doc list \<Rightarrow> doc list" where
  "bulk_write ops coll = foldl apply_op coll ops"

text \<open>The two collections of the database \<open>dispatchtrack\<close>.\<close>

record store =
  routes :: "doc list"
  dispatches :: "doc list"

text \<open>
  Every stored document has an object identifier under \<open>_id\<close>, and no two documents of a
  collection share it.
\<close>

definition doc_id :: "doc \<Rightarrow> pyval option" where
  "doc_id d = map_of d ''_id''"

definition wf_coll :: "doc list \<Rightarrow> bool" where
  "wf_coll coll = (list_all (\<lambda>d. case doc_id d of Some (POid n) \<Rightarrow> True | _ \<Rightarrow> False) coll
     \<and> distinct (map doc_id coll))"

section \<open>Route ingestion (\<open>get_routes.py\<close>)\<close>

fun route_key_fields :: "pyval \<Rightarrow> string list \<Rightarrow> error + string option" where
  "route_key_fields route [] = Inr None"
| "route_key_fields route (field # rest) =
    ebind (py_get route field) (\<lambda>v.
      if v \<noteq> PNone then Inr (Some (py_str v)) else route_key_fields route rest)"

definition extract_route_key :: "pyval \<Rightarrow> error + string option" where
  "extract_route_key route = route_key_fields route [''number'', ''route_number'', ''id'']"

definition route_upsert :: "string \<Rightarrow> int \<Rightarrow> nat \<Rightarrow> string \<Rightarrow> pyval \<Rightarrow> upsert_op" where
  "route_upsert date_str page now_utc key route =
    UpdateOne [(''route_key'', Eq (PStr key))]
      [(''date'', PStr date_str), (''page'', PInt page), (''minified_raw'', route),
       (''last_refreshed_at'', PDate now_utc)]
      [(''created_at'', PDate now_utc), (''has_full_details'', PBool False),
       (''is_closed'', PBool False)]"

text \<open>The loop over the routes of a page collects the bulk operations; an item without
  a key (or with an empty one) is skipped.\<close>

fun route_ops :: "string \<Rightarrow> int \<Rightarrow> nat \<Rightarrow> pyval list \<Rightarrow> error + upsert_op list" where
  "route_ops date_str page now_utc [] = Inr []"
| "route_ops date_str page now_utc (route # rest) =
    ebind (extract_route_key route) (\<lambda>key.
      case key of
        None \<Rightarrow> route_ops date_str page now_utc rest
      | Some k \<Rightarrow>
          if k = [] then route_ops date_str page now_utc rest
          else ebind (route_ops date_str page now_utc rest) (\<lambda>ops.
                 Inr (route_upsert date_str page now_utc k route # ops)))"

text \<open>
  \<open>_upsert_routes_for_page\<close>. The result of \<open>fetch_routes_page(date_str, page)\<close>, an
  exception or the list of route items, is a parameter; the function returns the
  collection and the exception raised or the number of routes.
\<close>

definition upsert_routes_for_page ::
  "(error + pyval list) \<Rightarrow> string \<Rightarrow> int \<Rightarrow> nat \<Rightarrow> doc list \<Rightarrow> doc list \<times> (error + nat)" where
  "upsert_routes_for_page fetched date_str page now_utc routes_col =
    (case fetched of
       Inl e \<Rightarrow> (routes_col, Inl e)
     | Inr routes_page \<Rightarrow>
         if routes_page = [] then (routes_col, Inr 0)
         else case route_ops date_str page now_utc routes_page of
                Inl e \<Rightarrow> (routes_col, Inl e)
              | Inr bulk_ops \<Rightarrow>
                  ((if bulk_ops \<noteq> [] then bulk_write bulk_ops routes_col else routes_col),
                   Inr (length bulk_ops)))"

section \<open>Detail refresh (\<open>get_details_from_route.py\<close>)\<close>

definition unwrap_details :: "pyval \<Rightarrow> pyval" where
  "unwrap_details raw =
    (let raw1 = (case raw of
                   PDict d \<Rightarrow> (case map_of d ''response'' of Some r \<Rightarrow> r | None \<Rightarrow> raw)
                 | _ \<Rightarrow> raw)
     in case raw1 of
          PDict d \<Rightarrow> (case map_of d ''route'' of Some r \<Rightarrow> r | None \<Rightarrow> raw1)
        | _ \<Rightarrow> raw1)"

text \<open>
  The loop over the routes found. \<open>fetch_route_details\<close> is a parameter; its
  \<open>DispatchTrackAPIError\<close> is caught and the route skipped, any other exception ends the
  run with the updates made so far.
\<close>

fun details_loop ::
  "(pyval \<Rightarrow> error + pyval) \<Rightarrow> nat \<Rightarrow> doc list \<Rightarrow> doc list \<Rightarrow> doc list \<times> error option" where
  "details_loop fetch now_utc [] routes_col = (routes_col, None)"
| "details_loop fetch now_utc (route_doc # rest) routes_col =
    (let route_key = dict_get route_doc ''route_key''
     in if \<not> py_truthy route_key then details_loop fetch now_utc rest routes_col
        else case fetch route_key of
               Inl e \<Rightarrow> (if e = APIError then details_loop fetch now_utc rest routes_col
                         else (routes_col, Some e))
             | Inr raw \<Rightarrow>
                 (case dict_index route_doc ''_id'' of
                    Inl e \<Rightarrow> (routes_col, Some e)
                  | Inr oid \<Rightarrow>
                      details_loop fetch now_utc rest
                        (update_one [(''_id'', Eq oid)]
                           [(''full_raw'', unwrap_details raw),
                            (''has_full_details'', PBool True),
                            (''last_refreshed_at'', PDate now_utc)] routes_col)))"

definition get_details_run ::
  "(pyval \<Rightarrow> error + pyval) \<Rightarrow> string \<Rightarrow> nat \<Rightarrow> doc list \<Rightarrow> doc list \<times> error option" where
  "get_details_run fetch date_str now_utc routes_col =
    details_loop fetch now_utc
      (find_docs [(''date'', Eq (PStr date_str)), (''is_closed'', Ne (PBool True))] routes_col)
      routes_col"

section \<open>Route closure (\<open>close_route_if_all_dispatches_closed.py\<close>)\<close>

definition get_route_payload :: "doc \<Rightarrow> pyval" where
  "get_route_payload route_doc =
    py_or (py_or (dict_get route_doc ''full_raw'') (dict_get route_doc ''minified_raw''))
      (PDict [])"

fun dispatch_ids :: "pyval list \<Rightarrow> error + string list" where
  "dispatch_ids [] = Inr []"
| "dispatch_ids (disp # rest) =
    ebind (py_get disp ''identifier'') (\<lambda>ident.
      ebind (dispatch_ids rest) (\<lambda>ids.
        Inr (if ident = PNone then ids else py_str ident # ids)))"

definition extract_dispatch_ids :: "pyval \<Rightarrow> error + string list" where
  "extract_dispatch_ids route_payload =
    ebind (py_get route_payload ''dispatches'') (\<lambda>ds.
      case ds of PList xs \<Rightarrow> dispatch_ids xs | _ \<Rightarrow> Inr [])"

text \<open>The dictionary \<open>found\<close>: a later document overwrites the entry of an earlier one
  with the same key.\<close>

definition found_of :: "doc list \<Rightarrow> (string \<times> bool) list" where
  "found_of docs =
    foldl (\<lambda>found d. AList.update (py_str (dict_get d ''dispatch_key''))
                        (dict_get d ''cierre'' = PBool True) found) [] docs"

definition mark_closed :: "doc \<Rightarrow> nat \<Rightarrow> store \<Rightarrow> store \<times> error option" where
  "mark_closed route_doc now_utc s =
    (case dict_index route_doc ''_id'' of
       Inl e \<Rightarrow> (s, Some e)
     | Inr oid \<Rightarrow>
         (s\<lparr>routes := update_one [(''_id'', Eq oid)]
                [(''is_closed'', PBool True), (''closed_at'', PDate now_utc)] (routes s)\<rparr>,
          None))"

definition close_route_run :: "string \<Rightarrow> nat \<Rightarrow> store \<Rightarrow> store \<times> error option" where
  "close_route_run route_key now_utc s =
    (case find_one [(''route_key'', Eq (PStr route_key))] (routes s) of
       None \<Rightarrow> (s, None)
     | Some route_doc \<Rightarrow>
         if route_doc = [] then (s, None)
         else if dict_get route_doc ''is_closed'' = PBool True then (s, None)
         else case extract_dispatch_ids (get_route_payload route_doc) of
                Inl e \<Rightarrow> (s, Some e)
              | Inr ids \<Rightarrow>
                  if ids = [] then mark_closed route_doc now_utc s
                  else let found = found_of (map (project [''_id'', ''dispatch_key'', ''cierre''])
                                      (find_docs [(''dispatch_key'', In (map PStr ids))]
                                         (dispatches s)))
                       in if list_all (\<lambda>dk. map_of found dk = Some True) ids
                          then mark_closed route_doc now_utc s
                          else (s, None))"

section \<open>Dispatch extraction (\<open>get_dispatches.py\<close>)\<close>

definition extract_dispatch_list :: "pyval \<Rightarrow> error + pyval list" where
  "extract_dispatch_list route_payload =
    ebind (py_get route_payload ''dispatches'') (\<lambda>ds.
      case ds of PList xs \<Rightarrow> Inr xs | _ \<Rightarrow> Inr [])"

text \<open>\<open>_extract_route_meta\<close> returns \<open>dispatch_date\<close> and \<open>truck_identifier\<close>.\<close>

definition extract_route_meta :: "pyval \<Rightarrow> error + pyval \<times> pyval" where
  "extract_route_meta route_payload =
    ebind (py_get route_payload ''dispatch_date'') (\<lambda>dispatch_date.
      ebind (py_get route_payload ''truck'') (\<lambda>truck.
        ebind (py_get (py_or truck (PDict [])) ''identifier'') (\<lambda>truck_identifier.
          Inr (dispatch_date, truck_identifier))))"

definition extract_dispatch_key :: "pyval \<Rightarrow> error + string option" where
  "extract_dispatch_key dispatch =
    ebind (py_get dispatch ''identifier'') (\<lambda>ident.
      Inr (if ident = PNone then None else Some (py_str ident)))"

definition flattened_keys :: "string list" where
  "flattened_keys = [''status'', ''status_id'', ''substatus'', ''substatus_code'', ''is_trunk'',
     ''is_pickup'', ''estimated_at'', ''min_delivery_time'', ''max_delivery_time'',
     ''delivery_time'', ''beecode'']"

text \<open>The fields of \<open>doc_meta\<close>; \<open>disp\<close> is a dictionary here, its key was read before.\<close>

definition doc_meta ::
  "pyval \<Rightarrow> string \<Rightarrow> pyval \<Rightarrow> pyval \<Rightarrow> pyval \<Rightarrow> nat \<Rightarrow> pyval \<Rightarrow> doc" where
  "doc_meta route_id route_key route_dispatch_date route_page truck_identifier now_utc disp =
    [(''route_id'', route_id), (''route_key'', PStr route_key),
     (''route_dispatch_date'', route_dispatch_date), (''route_page'', route_page),
     (''truck_identifier'', truck_identifier), (''dispatch_raw'', disp),
     (''last_refreshed_at'', PDate now_utc)]
    @ map (\<lambda>k. (k, case disp of PDict d \<Rightarrow> dict_get d k | _ \<Rightarrow> PNone)) flattened_keys"

definition dispatch_upsert :: "(pyval \<Rightarrow> doc) \<Rightarrow> nat \<Rightarrow> string \<Rightarrow> pyval \<Rightarrow> upsert_op" where
  "dispatch_upsert meta now_utc disp_key disp =
    UpdateOne [(''dispatch_key'', Eq (PStr disp_key))] (meta disp)
      [(''created_at'', PDate now_utc), (''ct'', PNone)]"

text \<open>
  The loop over the dispatch list, with the pending bulk operations and the collection: a
  batch of 500 operations is written at once, the rest after the loop. An exception leaves
  the batches written so far.
\<close>

fun dispatch_loop ::
  "(pyval \<Rightarrow> doc) \<Rightarrow> nat \<Rightarrow> pyval list \<Rightarrow> upsert_op list \<Rightarrow> doc list
     \<Rightarrow> doc list \<times> error option" where
  "dispatch_loop meta now_utc [] bulk_ops disp_col =
    ((if bulk_ops \<noteq> [] then bulk_write bulk_ops disp_col else disp_col), None)"
| "dispatch_loop meta now_utc (disp # rest) bulk_ops disp_col =
    (case extract_dispatch_key disp of
       Inl e \<Rightarrow> (disp_col, Some e)
     | Inr None \<Rightarrow> dispatch_loop meta now_utc rest bulk_ops disp_col
     | Inr (Some k) \<Rightarrow>
         if k = [] then dispatch_loop meta now_utc rest bulk_ops disp_col
         else let ops = bulk_ops @ [dispatch_upsert meta now_utc k disp]
              in if 500 \<le> length ops
                 then dispatch_loop meta now_utc rest [] (bulk_write ops disp_col)
                 else dispatch_loop meta now_utc rest ops disp_col)"

definition get_dispatches_run :: "string \<Rightarrow> nat \<Rightarrow> store \<Rightarrow> store \<times> error option" where
  "get_dispatches_run route_key now_utc s =
    (case find_one [(''route_key'', Eq (PStr route_key))] (routes s) of
       None \<Rightarrow> (s, None)
     | Some route_doc \<Rightarrow>
         if route_doc = [] then (s, None)
         else case dict_index route_doc ''_id'' of
           Inl e \<Rightarrow> (s, Some e)
         | Inr route_id \<Rightarrow>
            (case extract_route_meta (get_route_payload route_doc) of
               Inl e \<Rightarrow> (s, Some e)
             | Inr (dispatch_date, truck_identifier) \<Rightarrow>
                (case extract_dispatch_list (get_route_payload route_doc) of
                   Inl e \<Rightarrow> (s, Some e)
                 | Inr dispatch_list \<Rightarrow>
                    (let r = dispatch_loop
                           (doc_meta route_id route_key
                              (py_or dispatch_date (dict_get route_doc ''date''))
                              (dict_get route_doc ''page'') truck_identifier now_utc)
                           now_utc dispatch_list [] (dispatches s)
                     in (s\<lparr>dispatches := fst r\<rparr>, snd r)))))"

section \<open>Carrier code extraction (\<open>backfill_ct.py\<close>)\<close>

fun codcomu_of_tags :: "pyval list \<Rightarrow> error + string option" where
  "codcomu_of_tags [] = Inr None"
| "codcomu_of_tags (tag # rest) =
    ebind (py_get tag ''name'') (\<lambda>n1.
      ebind (if py_truthy n1 then Inr n1 else py_get tag ''Name'') (\<lambda>name.
        if \<not> py_truthy name then codcomu_of_tags rest
        else if py_upper (strip (py_str name)) = ''CODCOMU''
        then ebind (py_get tag ''value'') (\<lambda>v1.
               ebind (if py_truthy v1 then Inr v1 else py_get tag ''Value'') (\<lambda>v.
                 if v = PNone then Inr None else Inr (Some (strip (py_str v)))))
        else codcomu_of_tags rest))"

definition extract_codcomu_value :: "pyval \<Rightarrow> error + string option" where
  "extract_codcomu_value disp_doc =
    ebind (py_get disp_doc ''tags'') (\<lambda>tags.
      case tags of PList ts \<Rightarrow> codcomu_of_tags ts | _ \<Rightarrow> Inr None)"

text \<open>
  For the statement of what the extraction returns: the name of a tag is read from \<open>name\<close>,
  or from \<open>Name\<close> when \<open>name\<close> is missing or falsy, and its value likewise from
  \<open>value\<close> or \<open>Value\<close>; a tag is a CODCOMU tag when the text of its name, stripped
  and in upper case, is \<open>CODCOMU\<close>.
\<close>

definition tag_name :: "doc \<Rightarrow> pyval" where
  "tag_name t = py_or (dict_get t ''name'') (dict_get t ''Name'')"

definition tag_value :: "doc \<Rightarrow> pyval" where
  "tag_value t = py_or (dict_get t ''value'') (dict_get t ''Value'')"

definition is_codcomu_tag :: "doc \<Rightarrow> bool" where
  "is_codcomu_tag t =
    (py_truthy (tag_name t) \<and> py_upper (strip (py_str (tag_name t))) = ''CODCOMU'')"

text \<open>
  The reading of the specification: an entry whose name, under either key spelling, is the
  text \<open>CODCOMU\<close> in any casing.
\<close>

definition ci_equal :: "string \<Rightarrow> string \<Rightarrow> bool" where
  "ci_equal s t = (py_lower s = py_lower t)"

definition claimed_codcomu_entry :: "pyval \<Rightarrow> bool" where
  "claimed_codcomu_entry tag =
    (case tag of
       PDict t \<Rightarrow>
         (case dict_get t ''name'' of PStr s \<Rightarrow> ci_equal s ''CODCOMU'' | _ \<Rightarrow> False)
         \<or> (case dict_get t ''Name'' of PStr s \<Rightarrow> ci_equal s ''CODCOMU'' | _ \<Rightarrow> False)
     | _ \<Rightarrow> False)"

section \<open>Order type backfill (\<open>backfill_tipo_orden_from_tags.py\<close>)\<close>

fun tipo_orden_of_tags :: "pyval list \<Rightarrow> pyval" where
  "tipo_orden_of_tags [] = PNone"
| "tipo_orden_of_tags (tag # rest) =
    (case tag of
       PDict t \<Rightarrow> if dict_get t ''name'' = PStr ''TIPO_ORDEN'' then dict_get t ''value''
                  else tipo_orden_of_tags rest
     | _ \<Rightarrow> tipo_orden_of_tags rest)"

definition extract_tipo_orden :: "pyval \<Rightarrow> pyval" where
  "extract_tipo_orden tags = (case tags of PList ts \<Rightarrow> tipo_orden_of_tags ts | _ \<Rightarrow> PNone)"

text \<open>The loop over the documents found returns the collection and the number of
  updates. \<open>doc.get("tags", [])\<close> is the empty list for a document without tags.\<close>

fun tipo_orden_loop :: "doc list \<Rightarrow> doc list \<Rightarrow> nat \<Rightarrow> doc list \<times> nat" where
  "tipo_orden_loop [] col updated = (col, updated)"
| "tipo_orden_loop (d # rest) col updated =
    (let oid = dict_get d ''_id'';
         tags = (case map_of d ''tags'' of None \<Rightarrow> PList [] | Some v \<Rightarrow> v);
         tipo_orden_value = extract_tipo_orden tags
     in if tipo_orden_value = PNone then tipo_orden_loop rest col updated
        else tipo_orden_loop rest
               (update_one [(''_id'', Eq oid)] [(''tipo_orden'', tipo_orden_value)] col)
               (Suc updated))"

definition backfill_tipo_orden_run :: "doc list \<Rightarrow> doc list \<times> nat" where
  "backfill_tipo_orden_run col =
    tipo_orden_loop
      (map (project [''_id'', ''tags'']) (find_docs [(''tipo_orden'', Exists False)] col))
      col 0"

section \<open>Sub-status backfill (\<open>backfill_substatus.py\<close>)\<close>

definition codigo_sub :: string where
  "codigo_sub = ''C'' @ [CHR 0xF3] @ ''digo Sub''"

definition estado_guia_key :: string where
  "estado_guia_key = ''Estado Gu'' @ [CHR 0xED] @ ''a''"

definition lookup_substatus :: "doc list \<Rightarrow> pyval \<Rightarrow> error + doc option" where
  "lookup_substatus sub_col code =
    ebind (code_variants code) (\<lambda>variants.
      case variants of
        None \<Rightarrow> Inr None
      | Some vs \<Rightarrow>
          if vs = [] then Inr None
          else Inr (map_option (project [codigo_sub, ''Estado Beetrack'', estado_guia_key, ''Cierre''])
                      (find_one [(codigo_sub, In vs)] sub_col)))"

definition null_fields :: doc where
  "null_fields = [(''estado_beetrack'', PNone), (''estado_guia'', PNone), (''cierre'', PNone)]"

definition mapped_fields :: "doc \<Rightarrow> doc" where
  "mapped_fields mapping =
    [(''estado_beetrack'', dict_get mapping ''Estado Beetrack''),
     (''estado_guia'', dict_get mapping estado_guia_key),
     (''cierre'', dict_get mapping ''Cierre'')]"

text \<open>What one dispatch gets written, from its \<open>substatus_code\<close> and the reference
  collection.\<close>

definition update_fields :: "doc list \<Rightarrow> doc \<Rightarrow> error + doc" where
  "update_fields sub_col disp =
    (let code = dict_get disp ''substatus_code''
     in if normalize_code code = None then Inr null_fields
        else ebind (lookup_substatus sub_col code) (\<lambda>mapping.
               case mapping of
                 None \<Rightarrow> Inr null_fields
               | Some m \<Rightarrow> if m \<noteq> [] then Inr (mapped_fields m) else Inr null_fields))"

fun substatus_loop :: "doc list \<Rightarrow> doc list \<Rightarrow> doc list \<Rightarrow> doc list \<times> error option" where
  "substatus_loop sub_col [] disp_col = (disp_col, None)"
| "substatus_loop sub_col (disp # rest) disp_col =
    (case update_fields sub_col disp of
       Inl e \<Rightarrow> (disp_col, Some e)
     | Inr fs \<Rightarrow>
         (case dict_index disp ''_id'' of
            Inl e \<Rightarrow> (disp_col, Some e)
          | Inr oid \<Rightarrow> substatus_loop sub_col rest (update_one [(''_id'', Eq oid)] fs disp_col)))"

definition backfill_substatus_run :: "doc list \<Rightarrow> doc list \<Rightarrow> doc list \<times> error option" where
  "backfill_substatus_run sub_col disp_col =
    substatus_loop sub_col (find_docs [] disp_col) disp_col"

section \<open>Date-range dispatch fetcher (\<open>fetch_dispatches.py\<close>)\<close>

definition saved_keys :: "string list" where
  "saved_keys = [''dispatch_id'', ''identifier'', ''status'', ''contact_name'',
     ''contact_address'', ''contact_phone'', ''contact_email'', ''latitude'', ''longitude'',
     ''route_id'', ''substatus'', ''substatus_code'', ''tags'', ''is_trunk'', ''is_pickup'',
     ''delivered_in_client'', ''arrived_at'', ''estimated_at'', ''min_delivery_time'',
     ''max_delivery_time'', ''beecode'', ''locked'', ''end_type'', ''number_of_retries'',
     ''min_age_required'', ''address_reference'', ''pickup_address_reference'',
     ''to_be_payed'', ''external_pincode'', ''items'', ''last_refreshed_at'']"

definition save_dispatch_to_mongo :: "pyval \<Rightarrow> doc list \<Rightarrow> doc list \<times> error option" where
  "save_dispatch_to_mongo dispatch dispatches_col =
    (case dispatch of
       PDict d \<Rightarrow>
         (let dispatch_id = dict_get d ''identifier'';
              existing_dispatch = find_one [(''identifier'', Eq dispatch_id)] dispatches_col
          in if existing_dispatch \<noteq> None \<and> existing_dispatch \<noteq> Some [] then (dispatches_col, None)
             else (upsert_one [(''identifier'', Eq dispatch_id)]
                     (map (\<lambda>k. (k, dict_get d k)) saved_keys) [] dispatches_col, None))
     | _ \<Rightarrow> (dispatches_col, Some AttributeError))"

fun save_page :: "pyval list \<Rightarrow> doc list \<Rightarrow> doc list \<times> error option" where
  "save_page [] col = (col, None)"
| "save_page (dispatch # rest) col =
    (case save_dispatch_to_mongo dispatch col of
       (col', Some e) \<Rightarrow> (col', Some e)
     | (col', None) \<Rightarrow> save_page rest col')"

text \<open>
  The pagination loop. The answer of the API for a page, its status code and the list under
  \<open>response\<close>, is a parameter. The loop has no bound of its own, so the model runs it for
  a number of pages and returns the collection reached, with the way it ended: the loop
  left, an exception, or still running.
\<close>

datatype outcome = Finished | Raised error | Running

fun fetch_dispatches_by_dates ::
  "nat \<Rightarrow> (nat \<Rightarrow> nat \<times> pyval list) \<Rightarrow> nat \<Rightarrow> doc list \<Rightarrow> doc list \<times> outcome" where
  "fetch_dispatches_by_dates 0 api page col = (col, Running)"
| "fetch_dispatches_by_dates (Suc fuel) api page col =
    (case api page of (status_code, response_dispatches) \<Rightarrow>
       if status_code = 200 then
         (if response_dispatches = [] then (col, Finished)
          else case save_page response_dispatches col of
                 (col', Some e) \<Rightarrow> (col', Raised e)
               | (col', None) \<Rightarrow> fetch_dispatches_by_dates fuel api (Suc page) col')
       else (col, Finished))"

section \<open>Invariant of the dispatches collection\<close>

text \<open>
  \<open>dispatch_key\<close> is the upsert key of the dispatch extractor: where a document has the
  field it is a string, and no two documents have the same.
\<close>

definition dispatch_key_of :: "doc \<Rightarrow> string option" where
  "dispatch_key_of d = (case map_of d ''dispatch_key'' of Some (PStr k) \<Rightarrow> Some k | _ \<Rightarrow> None)"

definition dispatch_keys_unique :: "doc list \<Rightarrow> bool" where
  "dispatch_keys_unique col =
    (list_all (\<lambda>d. case map_of d ''dispatch_key'' of
                      None \<Rightarrow> True | Some (PStr k) \<Rightarrow> True | _ \<Rightarrow> False) col
     \<and> distinct (List.map_filter dispatch_key_of col))"

text \<open>The documents of a collection that have a given dispatch key.\<close>

definition docs_with_key :: "string \<Rightarrow> doc list \<Rightarrow> doc list" where
  "docs_with_key k col = filter (\<lambda>d. map_of d ''dispatch_key'' = Some (PStr k)) col"

section \<open>The jobs as operations on the store\<close>

text \<open>
  Each job of the model changes one collection; \<open>run_job\<close> gives the store a job leaves,
  also when it ends with an exception. \<open>op_sets\<close> names the fields a bulk operation
  sets in a document that exists.
\<close>

fun op_sets :: "upsert_op \<Rightarrow> string list" where
  "op_sets (UpdateOne q st soi) = map fst st"

text \<open>The arguments of a job include what the API answers and the time of its clock.\<close>

datatype job =
    GetRoutes "error + pyval list" string int nat
  | GetDetails "pyval \<Rightarrow> error + pyval" string nat
  | GetDispatches string nat
  | CloseRoute string nat
  | BackfillSubstatus "doc list"
  | BackfillTipoOrden
  | FetchDispatches nat "nat \<Rightarrow> nat \<times> pyval list" nat

fun run_job :: "job \<Rightarrow> store \<Rightarrow> store" where
  "run_job (GetRoutes fetched date_str page now_utc) s =
     s\<lparr>routes := fst (upsert_routes_for_page fetched date_str page now_utc (routes s))\<rparr>"
| "run_job (GetDetails fetch date_str now_utc) s =
     s\<lparr>routes := fst (get_details_run fetch date_str now_utc (routes s))\<rparr>"
| "run_job (GetDispatches route_key now_utc) s = fst (get_dispatches_run route_key now_utc s)"
| "run_job (CloseRoute route_key now_utc) s = fst (close_route_run route_key now_utc s)"
| "run_job (BackfillSubstatus sub_col) s =
     s\<lparr>dispatches := fst (backfill_substatus_run sub_col (dispatches s))\<rparr>"
| "run_job BackfillTipoOrden s = s\<lparr>dispatches := fst (backfill_tipo_orden_run (dispatches s))\<rparr>"
| "run_job (FetchDispatches fuel api page) s =
     s\<lparr>dispatches := fst (fetch_dispatches_by_dates fuel api page (dispatches s))\<rparr>"

text \<open>What a route document keeps: its identifier, \<open>is_closed\<close> and \<open>full_raw\<close>.\<close>

definition kept :: "doc \<Rightarrow> doc \<Rightarrow> bool" where
  "kept d d' = (doc_id d' = doc_id d \<and> map_of d' ''is_closed'' = map_of d ''is_closed''
     \<and> map_of d' ''full_raw'' = map_of d ''full_raw'')"

section \<open>Properties of the code normalizer\<close>

lemma normalize_code_None: "normalize_code PNone = None"
  by (simp add: normalize_code_def)

lemma normalize_code_bad_float:
  "normalize_code (PFloat FNaN) = None" "normalize_code (PFloat (FInf b)) = None"
  by (simp_all add: normalize_code_def is_bad_number_def)

lemma normalize_code_other:
  assumes "code \<noteq> PNone" and "code \<noteq> PFloat FNaN" and "\<forall>b. code \<noteq> PFloat (FInf b)"
  shows "normalize_code code =
    (if strip (py_str code) = [] \<or> py_lower (strip (py_str code)) = ''nan'' then None
     else Some (strip (py_str code)))"
  using assms
  by (auto simp add: normalize_code_def is_bad_number_def Let_def
      split: pyval.splits pyfloat.splits)

lemma code_variants_decimal:
  assumes "normalize_code code = Some s" and "s \<noteq> []" and "list_all is_decimal s"
  shows "\<exists>n. py_int s = Inr n \<and> code_variants code = Inr (Some [PStr s, PInt n])"
proof -
  have "list_all is_digit s"
    using assms(3) by (induction s) (auto simp add: is_decimal_def is_digit_def Let_def)
  with assms show ?thesis
    by (simp add: code_variants_def py_isdigit_def py_int_def ebind_def)
qed

lemma code_variants_not_digit:
  assumes "normalize_code code = Some s" and "\<not> py_isdigit s"
  shows "code_variants code = Inr (Some [PStr s])"
  using assms by (simp add: code_variants_def)

text \<open>
  C5. The normalizer maps \<open>None\<close>, NaN and the infinities to absent and every other
  input to its stripped text (absent when that is empty or reads \<open>nan\<close>), as the three
  lemmas above show, and the variants of a code of decimal digits are its text and its
  integer. But \<open>str.isdigit\<close> also accepts the superscript digits, which \<open>int\<close> rejects:
  for the one-character code U+00B2 (superscript two) the normalizer returns that text,
  \<open>isdigit\<close> holds, and \<open>_code_variants\<close> raises \<open>ValueError\<close> where a set
  holding the canonical string is expected.
\<close>

theorem code_variants_superscript_raises:
  "normalize_code (PStr [CHR 0xB2]) = Some [CHR 0xB2] \<and> py_isdigit [CHR 0xB2]
   \<and> code_variants (PStr [CHR 0xB2]) = Inl ValueError"
  by code_simp

section \<open>Properties of route ingestion\<close>




section \<open>Properties of the order type backfill\<close>

text \<open>
  C7. The job skips a document only when the value extracted is \<open>None\<close>. For a dispatch
  without \<open>tipo_orden\<close> whose tag \<open>TIPO_ORDEN\<close> has the empty string as value, it writes
  \<open>tipo_orden\<close> as the empty string and counts one update, where a value that is not
  present/non-empty should lead to no write.
\<close>

theorem tipo_orden_empty_value_written:
  "backfill_tipo_orden_run
     [[(''_id'', POid 1), (''tags'', PList [PDict [(''name'', PStr ''TIPO_ORDEN''), (''value'', PStr '''')]])]]
   = ([[(''_id'', POid 1), (''tags'', PList [PDict [(''name'', PStr ''TIPO_ORDEN''), (''value'', PStr '''')]]),
        (''tipo_orden'', PStr '''')]], 1)"
  by code_simp

section \<open>Properties of the sub-status backfill\<close>

text \<open>
  C3. With an empty reference collection and two dispatches, the first with the
  one-character code U+00B2 (superscript two), the run raises \<open>ValueError\<close> at the first
  dispatch and writes nothing: neither dispatch gets its three fields set to null, and the
  stale \<open>cierre\<close> of both stays.
\<close>

theorem substatus_run_superscript_raises:
  "backfill_substatus_run []
     [[(''_id'', POid 1), (''substatus_code'', PStr [CHR 0xB2]), (''cierre'', PBool True)],
      [(''_id'', POid 2), (''substatus_code'', PNone), (''cierre'', PBool True)]]
   = ([[(''_id'', POid 1), (''substatus_code'', PStr [CHR 0xB2]), (''cierre'', PBool True)],
       [(''_id'', POid 2), (''substatus_code'', PNone), (''cierre'', PBool True)]], Some ValueError)"
  by code_simp

section \<open>Properties of the carrier code extraction\<close>

lemma codcomu_of_tags_find:
  "codcomu_of_tags (map PDict ds) =
     Inr (case List.find is_codcomu_tag ds of
            None \<Rightarrow> None
          | Some t \<Rightarrow> if tag_value t = PNone then None else Some (strip (py_str (tag_value t))))"
proof (induction ds)
  case Nil
  show ?case by simp
next
  case (Cons t ds)
  show ?case
  proof (cases "is_codcomu_tag t")
    case True
    then show ?thesis
      by (cases "py_truthy (dict_get t ''name'')"; cases "py_truthy (dict_get t ''value'')")
         (auto simp add: ebind_def is_codcomu_tag_def tag_name_def tag_value_def py_or_def)
  next
    case False
    then show ?thesis
      using Cons.IH
      by (cases "py_truthy (dict_get t ''name'')")
         (auto simp add: ebind_def is_codcomu_tag_def tag_name_def py_or_def)
  qed
qed

text \<open>
  C6, as amended. When the \<open>tags\<close> of the document are not a list, the extraction returns
  absent. When they are a list of dictionaries, it looks at the first CODCOMU tag (name
  read from \<open>name\<close>, else \<open>Name\<close>; stringified, stripped and upper-cased): without such a
  tag it returns absent, otherwise the stripped text of the tag's value (read from
  \<open>value\<close>, else \<open>Value\<close>), or absent when that value is \<open>None\<close>.
\<close>

theorem extract_codcomu_value_first_match:
  "((\<forall>ts. dict_get doc ''tags'' \<noteq> PList ts) \<longrightarrow> extract_codcomu_value (PDict doc) = Inr None)
   \<and> (dict_get doc ''tags'' = PList (map PDict ds) \<longrightarrow>
        extract_codcomu_value (PDict doc) =
          Inr (case List.find is_codcomu_tag ds of
                 None \<Rightarrow> None
               | Some t \<Rightarrow> if tag_value t = PNone then None
                           else Some (strip (py_str (tag_value t)))))"
  by (auto simp add: extract_codcomu_value_def ebind_def codcomu_of_tags_find split: pyval.splits)

theorem extract_codcomu_value_first_match_witness:
  "(\<forall>ts. dict_get [(''tags'', PStr ''x'')] ''tags'' \<noteq> PList ts)
   \<and> extract_codcomu_value (PDict [(''tags'', PStr ''x'')]) = Inr None
   \<and> dict_get [(''tags'', PList [PDict [(''name'', PStr ''OTHER'')],
                                  PDict [(''Name'', PStr ''codComu''), (''Value'', PStr '' 12 '')]])] ''tags''
       = PList (map PDict [[(''name'', PStr ''OTHER'')],
                           [(''Name'', PStr ''codComu''), (''Value'', PStr '' 12 '')]])
   \<and> extract_codcomu_value
        (PDict [(''tags'', PList [PDict [(''name'', PStr ''OTHER'')],
                                  PDict [(''Name'', PStr ''codComu''), (''Value'', PStr '' 12 '')]])])
       = Inr (Some ''12'')"
proof -
  have a: "\<forall>ts. dict_get [(''tags'', PStr ''x'')] ''tags'' \<noteq> PList ts"
    by (simp add: dict_get_def)
  have b: "dict_get [(''tags'', PList [PDict [(''name'', PStr ''OTHER'')],
                                  PDict [(''Name'', PStr ''codComu''), (''Value'', PStr '' 12 '')]])] ''tags''
       = PList (map PDict [[(''name'', PStr ''OTHER'')],
                           [(''Name'', PStr ''codComu''), (''Value'', PStr '' 12 '')]])"
    by (simp add: dict_get_def)
  have c: "(case List.find is_codcomu_tag [[(''name'', PStr ''OTHER'')],
                           [(''Name'', PStr ''codComu''), (''Value'', PStr '' 12 '')]] of
                 None \<Rightarrow> None
               | Some t \<Rightarrow> if tag_value t = PNone then None
                           else Some (strip (py_str (tag_value t)))) = Some ''12''"
    by code_simp
  from extract_codcomu_value_first_match [of "[(''tags'', PStr ''x'')]"] a
  have 1: "extract_codcomu_value (PDict [(''tags'', PStr ''x'')]) = Inr None" by blast
  from extract_codcomu_value_first_match [of "[(''tags'', PList [PDict [(''name'', PStr ''OTHER'')],
                                  PDict [(''Name'', PStr ''codComu''), (''Value'', PStr '' 12 '')]])]"
       "[[(''name'', PStr ''OTHER'')], [(''Name'', PStr ''codComu''), (''Value'', PStr '' 12 '')]]"] b c
  have 2: "extract_codcomu_value
        (PDict [(''tags'', PList [PDict [(''name'', PStr ''OTHER'')],
                                  PDict [(''Name'', PStr ''codComu''), (''Value'', PStr '' 12 '')]])])
       = Inr (Some ''12'')" by simp
  from a b 1 2 show ?thesis by blast
qed

text \<open>
  C6, as stated, fails: the list with the one tag named \<open>CODCOMU\<close> between two blanks has
  no entry whose name is \<open>CODCOMU\<close> in some casing, and the extraction returns the
  tag's value.
\<close>

theorem extract_codcomu_padded_name_counterexample:
  "\<not> list_ex claimed_codcomu_entry [PDict [(''name'', PStr '' CODCOMU ''), (''value'', PStr ''5'')]]
   \<and> extract_codcomu_value
        (PDict [(''tags'', PList [PDict [(''name'', PStr '' CODCOMU ''), (''value'', PStr ''5'')]])])
      = Inr (Some ''5'')"
  by code_simp

section \<open>Properties of the document store\<close>

lemma wf_coll_nonempty: "wf_coll col \<Longrightarrow> [] \<notin> set col"
  by (auto simp add: wf_coll_def list_all_iff doc_id_def)

lemma set_fields_nonempty: "d \<noteq> [] \<Longrightarrow> set_fields st d \<noteq> []"
proof (induction st arbitrary: d)
  case Nil
  then show ?case by simp
next
  case (Cons a st)
  then show ?case by (cases a) simp
qed

lemma set_fields_nonempty': "d \<noteq> [] \<Longrightarrow> [] \<noteq> set_fields st d"
  using set_fields_nonempty [of d st] by auto

lemma find_one_None: "find_one q col = None \<longleftrightarrow> \<not> list_ex (\<lambda>d. matches d q) col"
  by (auto simp add: find_one_def find_None_iff list_ex_iff)

lemma find_one_Some_mem: "find_one q col = Some d \<Longrightarrow> d \<in> set col \<and> matches d q"
  by (auto simp add: find_one_def find_Some_iff)

section \<open>Properties of the date-range dispatch fetcher\<close>

lemma save_dispatch_extends:
  assumes "[] \<notin> set col"
  shows "\<exists>new. fst (save_dispatch_to_mongo v col) = col @ new \<and> [] \<notin> set (col @ new)"
proof (cases v)
  case (PDict d)
  show ?thesis
  proof (cases "find_one [(''identifier'', Eq (dict_get d ''identifier''))] col")
    case None
    then have "\<not> list_ex (\<lambda>x. matches x [(''identifier'', Eq (dict_get d ''identifier''))]) col"
      by (simp add: find_one_None)
    with None PDict assms show ?thesis
      by (simp add: save_dispatch_to_mongo_def upsert_one_def Let_def set_fields_nonempty')
  next
    case (Some e)
    then have "e \<noteq> []" using assms find_one_Some_mem by metis
    with Some PDict assms show ?thesis
      by (simp add: save_dispatch_to_mongo_def Let_def)
  qed
qed (use assms in \<open>simp_all add: save_dispatch_to_mongo_def\<close>)

lemma save_page_extends:
  assumes "[] \<notin> set col"
  shows "\<exists>new. fst (save_page vs col) = col @ new \<and> [] \<notin> set (col @ new)"
  using assms
proof (induction vs arbitrary: col)
  case Nil
  then show ?case by simp
next
  case (Cons v vs)
  obtain new where n: "fst (save_dispatch_to_mongo v col) = col @ new" "[] \<notin> set (col @ new)"
    using save_dispatch_extends [OF Cons.prems] by blast
  obtain c e where ce: "save_dispatch_to_mongo v col = (c, e)" by (cases "save_dispatch_to_mongo v col")
  with n have c: "c = col @ new" by simp
  show ?case
  proof (cases e)
    case None
    obtain new2 where "fst (save_page vs c) = c @ new2" "[] \<notin> set (c @ new2)"
      using Cons.IH [of c] n c by blast
    with None ce c show ?thesis by auto
  next
    case (Some err)
    with ce c n show ?thesis by auto
  qed
qed

lemma fetch_extends:
  assumes "[] \<notin> set col"
  shows "\<exists>new. fst (fetch_dispatches_by_dates fuel api page col) = col @ new"
  using assms
proof (induction fuel arbitrary: page col)
  case 0
  then show ?case by simp
next
  case (Suc fuel)
  obtain sc rs where api: "api page = (sc, rs)" by (cases "api page")
  obtain new where n: "fst (save_page rs col) = col @ new" "[] \<notin> set (col @ new)"
    using save_page_extends [OF Suc.prems] by blast
  obtain c e where ce: "save_page rs col = (c, e)" by (cases "save_page rs col")
  with n have c: "c = col @ new" by simp
  show ?case
  proof (cases e)
    case None
    obtain new2 where "fst (fetch_dispatches_by_dates fuel api (Suc page) c) = c @ new2"
      using Suc.IH [of c] n c by blast
    with None ce c api show ?thesis by auto
  next
    case (Some err)
    with ce c api show ?thesis by auto
  qed
qed

text \<open>
  C10. In a collection of stored documents, when the identifier of a fetched payload
  matches a document already there, \<open>save_dispatch_to_mongo\<close> returns the collection as
  it is. Whatever the payload, the function only appends to the collection, and so does the
  pagination loop for any answers of the API and any number of pages: the documents
  stored before are never modified.
\<close>

theorem save_dispatch_existing_untouched:
  assumes "wf_coll col"
  shows "(find_one [(''identifier'', Eq (dict_get d ''identifier''))] col \<noteq> None
            \<longrightarrow> save_dispatch_to_mongo (PDict d) col = (col, None))
         \<and> (\<exists>new. fst (save_dispatch_to_mongo v col) = col @ new)
         \<and> (\<exists>new. fst (fetch_dispatches_by_dates fuel api page col) = col @ new)"
proof -
  have ne: "[] \<notin> set col" using assms by (rule wf_coll_nonempty)
  have "save_dispatch_to_mongo (PDict d) col = (col, None)"
    if "find_one [(''identifier'', Eq (dict_get d ''identifier''))] col \<noteq> None"
  proof -
    from that obtain e where e: "find_one [(''identifier'', Eq (dict_get d ''identifier''))] col = Some e"
      by blast
    then have "e \<noteq> []" using ne find_one_Some_mem by metis
    with e show ?thesis by (simp add: save_dispatch_to_mongo_def Let_def)
  qed
  moreover have "\<exists>new. fst (save_dispatch_to_mongo v col) = col @ new"
    using save_dispatch_extends [OF ne] by blast
  moreover have "\<exists>new. fst (fetch_dispatches_by_dates fuel api page col) = col @ new"
    using fetch_extends [OF ne] by blast
  ultimately show ?thesis by blast
qed

theorem save_dispatch_existing_untouched_witness:
  "wf_coll [[(''_id'', POid 1), (''identifier'', PStr ''D1''), (''status'', PStr ''old'')]]
   \<and> find_one [(''identifier'', Eq (dict_get [(''identifier'', PStr ''D1''), (''status'', PStr ''new'')] ''identifier''))]
        [[(''_id'', POid 1), (''identifier'', PStr ''D1''), (''status'', PStr ''old'')]] \<noteq> None
   \<and> save_dispatch_to_mongo (PDict [(''identifier'', PStr ''D1''), (''status'', PStr ''new'')])
        [[(''_id'', POid 1), (''identifier'', PStr ''D1''), (''status'', PStr ''old'')]]
      = ([[(''_id'', POid 1), (''identifier'', PStr ''D1''), (''status'', PStr ''old'')]], None)"
proof -
  have w: "wf_coll [[(''_id'', POid 1), (''identifier'', PStr ''D1''), (''status'', PStr ''old'')]]"
    by code_simp
  have f: "find_one [(''identifier'', Eq (dict_get [(''identifier'', PStr ''D1''), (''status'', PStr ''new'')] ''identifier''))]
        [[(''_id'', POid 1), (''identifier'', PStr ''D1''), (''status'', PStr ''old'')]] \<noteq> None"
    by code_simp
  from save_dispatch_existing_untouched [OF w, of "[(''identifier'', PStr ''D1''), (''status'', PStr ''new'')]"] w f
  show ?thesis by blast
qed

section \<open>Updates by identifier, projections and keys\<close>



lemma wf_coll_Cons:
  "wf_coll (d # ds) \<longleftrightarrow>
     (\<exists>n. doc_id d = Some (POid n)) \<and> doc_id d \<notin> doc_id ` set ds \<and> wf_coll ds"
  by (auto simp add: wf_coll_def split: option.splits pyval.splits)

lemma matches_id:
  "doc_id d = Some (POid m) \<Longrightarrow> matches d [(''_id'', Eq (POid n))] \<longleftrightarrow> m = n"
  by (simp add: matches_def doc_id_def eq_holds_def field_matches_def)

lemma update_one_by_id:
  assumes "wf_coll coll"
  shows "update_one [(''_id'', Eq (POid n))] st coll =
         map (\<lambda>d. if doc_id d = Some (POid n) then set_fields st d else d) coll"
  using assms
proof (induction coll)
  case Nil
  then show ?case by simp
next
  case (Cons d ds)
  then obtain m where m: "doc_id d = Some (POid m)" and notin: "doc_id d \<notin> doc_id ` set ds"
    and wf: "wf_coll ds"
    by (auto simp add: wf_coll_Cons)
  show ?case
  proof (cases "m = n")
    case True
    with m notin have "\<forall>x\<in>set ds. doc_id x \<noteq> Some (POid n)" by force
    then have "map (\<lambda>d. if doc_id d = Some (POid n) then set_fields st d else d) ds = ds"
      by (simp add: map_idI)
    with True m show ?thesis by (simp add: matches_id)
  next
    case False
    with m Cons.IH [OF wf] show ?thesis by (simp add: matches_id)
  qed
qed




lemma map_filter_Cons:
  "List.map_filter f (x # xs) = (case f x of None \<Rightarrow> List.map_filter f xs | Some y \<Rightarrow> y # List.map_filter f xs)"
  by (simp add: List.map_filter_def split: option.splits)

lemma key_in_map_filter:
  "d \<in> set col \<Longrightarrow> map_of d ''dispatch_key'' = Some (PStr k)
     \<Longrightarrow> k \<in> set (List.map_filter dispatch_key_of col)"
  by (induction col) (auto simp add: map_filter_Cons dispatch_key_of_def split: option.splits)


section \<open>Properties of the route closure\<close>


lemma key_shape:
  "(case x of None \<Rightarrow> True | Some (PStr s) \<Rightarrow> True | _ \<Rightarrow> False)
     \<Longrightarrow> x = None \<or> (\<exists>s. x = Some (PStr s))"
  by (cases x; cases "the x") auto



lemma oid_shape:
  "(case x of Some (POid n) \<Rightarrow> True | _ \<Rightarrow> False) \<Longrightarrow> \<exists>n. x = Some (POid n)"
  by (cases x; cases "the x") auto

lemma wf_coll_mem:
  assumes "wf_coll col" and "d \<in> set col"
  shows "\<exists>n. doc_id d = Some (POid n)"
proof -
  from assms have "case doc_id d of Some (POid n) \<Rightarrow> True | _ \<Rightarrow> False"
    unfolding wf_coll_def list_all_iff by blast
  then show ?thesis by (rule oid_shape)
qed

lemma mark_closed_by_id:
  assumes "wf_coll (routes s)" and "route_doc \<in> set (routes s)"
  shows "mark_closed route_doc now_utc s =
    (s\<lparr>routes := map (\<lambda>d. if doc_id d = doc_id route_doc
                            then set_fields [(''is_closed'', PBool True), (''closed_at'', PDate now_utc)] d
                            else d) (routes s)\<rparr>, None)"
proof -
  from wf_coll_mem [OF assms] obtain n where n: "doc_id route_doc = Some (POid n)" by blast
  then have "dict_index route_doc ''_id'' = Inr (POid n)"
    by (simp add: dict_index_def doc_id_def)
  with n update_one_by_id [OF assms(1), of n] show ?thesis
    by (simp add: mark_closed_def)
qed



section \<open>Closed routes under the jobs\<close>

lemma set_fields_other: "k \<notin> fst ` set st \<Longrightarrow> map_of (set_fields st d) k = map_of d k"
proof (induction st arbitrary: d)
  case Nil
  then show ?case by simp
next
  case (Cons a st)
  then show ?case by (cases a) (simp add: update_conv')
qed

lemma update_one_cases:
  "d \<in> set coll \<Longrightarrow> d \<in> set (update_one q st coll) \<or> set_fields st d \<in> set (update_one q st coll)"
  by (induction coll) auto

lemma upsert_one_cases:
  "d \<in> set coll \<Longrightarrow> d \<in> set (upsert_one q st soi coll) \<or> set_fields st d \<in> set (upsert_one q st soi coll)"
  using update_one_cases [of d coll q st] by (auto simp add: upsert_one_def)

lemma kept_set_fields:
  assumes "kept d d'" and "''_id'' \<notin> fst ` set st" and "''is_closed'' \<notin> fst ` set st"
    and "''full_raw'' \<notin> fst ` set st"
  shows "kept d (set_fields st d')"
  using assms by (simp add: kept_def doc_id_def set_fields_other)

lemma bulk_write_kept:
  assumes "\<forall>op\<in>set ops. ''_id'' \<notin> set (op_sets op) \<and> ''is_closed'' \<notin> set (op_sets op)
             \<and> ''full_raw'' \<notin> set (op_sets op)"
    and "\<exists>d'\<in>set coll. kept d d'"
  shows "\<exists>d'\<in>set (bulk_write ops coll). kept d d'"
  using assms
proof (induction ops arbitrary: coll)
  case Nil
  then show ?case by (simp add: bulk_write_def)
next
  case (Cons op ops)
  obtain q st soi where op: "op = UpdateOne q st soi" by (cases op)
  from Cons.prems(2) obtain d' where d': "d' \<in> set coll" "kept d d'" by blast
  from Cons.prems(1) op have safe: "''_id'' \<notin> fst ` set st" "''is_closed'' \<notin> fst ` set st"
      "''full_raw'' \<notin> fst ` set st"
    by auto
  have "\<exists>x\<in>set (upsert_one q st soi coll). kept d x"
    using upsert_one_cases [OF d'(1), of q st soi] d'(2) kept_set_fields [OF d'(2) safe] by blast
  then have "\<exists>x\<in>set (bulk_write ops (upsert_one q st soi coll)). kept d x"
    using Cons.IH Cons.prems(1) by simp
  with op show ?case by (simp add: bulk_write_def)
qed

lemma route_ops_safe:
  "route_ops date_str page now_utc rs = Inr ops \<Longrightarrow>
     \<forall>op\<in>set ops. ''_id'' \<notin> set (op_sets op) \<and> ''is_closed'' \<notin> set (op_sets op)
             \<and> ''full_raw'' \<notin> set (op_sets op)"
proof (induction rs arbitrary: ops)
  case Nil
  then show ?case by simp
next
  case (Cons r rs)
  then show ?case
    by (auto simp add: ebind_def route_upsert_def split: sum.splits option.splits if_splits)
qed

lemma upsert_routes_kept:
  assumes "d \<in> set routes_col"
  shows "\<exists>d'\<in>set (fst (upsert_routes_for_page fetched date_str page now_utc routes_col)). kept d d'"
proof -
  have k: "\<exists>d'\<in>set routes_col. kept d d'" using assms by (auto simp add: kept_def)
  show ?thesis
    using k bulk_write_kept [OF route_ops_safe k]
    by (auto simp add: upsert_routes_for_page_def split: sum.splits)
qed

lemma doc_id_set_fields: "''_id'' \<notin> fst ` set st \<Longrightarrow> doc_id (set_fields st d) = doc_id d"
  by (simp add: doc_id_def set_fields_other)

lemma wf_coll_map:
  assumes "wf_coll col" and "\<And>d. doc_id (f d) = doc_id d"
  shows "wf_coll (map f col)"
proof -
  have m: "map doc_id (map f col) = map doc_id col" using assms(2) by simp
  have "list_all (\<lambda>d. case doc_id d of Some (POid n) \<Rightarrow> True | _ \<Rightarrow> False) (map f col)"
    using assms by (simp add: wf_coll_def list_all_iff)
  moreover have "distinct (map doc_id (map f col))"
    using assms(1) unfolding m by (simp add: wf_coll_def)
  ultimately show ?thesis unfolding wf_coll_def by blast
qed

lemma wf_coll_inj:
  assumes "wf_coll col" and "d \<in> set col" and "e \<in> set col" and "doc_id d = doc_id e"
  shows "d = e"
proof -
  from assms(1) have "inj_on doc_id (set col)"
    by (simp add: wf_coll_def distinct_map)
  with assms(2,3,4) show ?thesis by (simp add: inj_on_def)
qed

lemma details_loop_kept:
  assumes "wf_coll col" and "d \<in> set col"
    and "\<forall>r\<in>set docs. (\<exists>n. doc_id r = Some (POid n)) \<longrightarrow> doc_id r \<noteq> doc_id d"
  shows "d \<in> set (fst (details_loop fetch now_utc docs col))"
  using assms
proof (induction docs arbitrary: col)
  case Nil
  then show ?case by simp
next
  case (Cons r docs)
  have rest: "\<forall>r\<in>set docs. (\<exists>n. doc_id r = Some (POid n)) \<longrightarrow> doc_id r \<noteq> doc_id d"
    using Cons.prems(3) by simp
  note IH = Cons.IH [OF _ _ rest]
  have skip: "d \<in> set (fst (details_loop fetch now_utc docs col))"
    by (rule IH) (rule Cons.prems)+
  show ?case
  proof (cases "py_truthy (dict_get r ''route_key'')")
    case False
    with skip show ?thesis by simp
  next
    case True
    show ?thesis
    proof (cases "fetch (dict_get r ''route_key'')")
      case (Inl e)
      with True skip Cons.prems(2) show ?thesis by simp
    next
      case (Inr raw)
      show ?thesis
      proof (cases "map_of r ''_id''")
        case None
        with True Inr Cons.prems(2) show ?thesis by (simp add: dict_index_def)
      next
        case (Some oid)
        let ?st = "[(''full_raw'', unwrap_details raw), (''has_full_details'', PBool True),
                    (''last_refreshed_at'', PDate now_utc)]"
        show ?thesis
        proof (cases "\<exists>n. oid = POid n")
          case True2: True
          then obtain n where n: "oid = POid n" by blast
          with Some have rid: "doc_id r = Some (POid n)" by (simp add: doc_id_def)
          with Cons.prems(3) have ne: "doc_id d \<noteq> Some (POid n)" by auto
          let ?col' = "map (\<lambda>x. if doc_id x = Some (POid n) then set_fields ?st x else x) col"
          have upd: "update_one [(''_id'', Eq oid)] ?st col = ?col'"
            using update_one_by_id [OF Cons.prems(1)] n by simp
          have idp: "doc_id (set_fields ?st x) = doc_id x" for x
            by (rule doc_id_set_fields) simp
          have wf': "wf_coll ?col'"
            by (rule wf_coll_map [OF Cons.prems(1)]) (simp add: idp del: set_fields.simps)
          have mem': "d \<in> set ?col'"
            using Cons.prems(2) ne by force
          have "d \<in> set (fst (details_loop fetch now_utc docs ?col'))"
            by (rule IH [OF wf' mem'])
          with True Inr Some upd show ?thesis by (simp add: dict_index_def)
        next
          case False
          have nomatch: "\<not> matches x [(''_id'', Eq oid)]" if "x \<in> set col" for x
          proof -
            from wf_coll_mem [OF Cons.prems(1) that] obtain m where "doc_id x = Some (POid m)" by blast
            with False show ?thesis
              by (cases oid) (auto simp add: matches_def doc_id_def eq_holds_def field_matches_def)
          qed
          have "update_one [(''_id'', Eq oid)] ?st col = col"
            using nomatch by (induction col) auto
          with True Inr Some skip show ?thesis by (simp add: dict_index_def)
        qed
      qed
    qed
  qed
qed

lemma closed_eq_holds:
  "dict_get d ''is_closed'' = PBool True \<Longrightarrow> eq_holds (map_of d ''is_closed'') (PBool True)"
  by (cases "map_of d ''is_closed''") (auto simp add: dict_get_def eq_holds_def field_matches_def)

lemma get_details_kept:
  assumes "wf_coll col" and "d \<in> set col" and "dict_get d ''is_closed'' = PBool True"
  shows "d \<in> set (fst (get_details_run fetch date_str now_utc col))"
proof -
  let ?q = "[(''date'', Eq (PStr date_str)), (''is_closed'', Ne (PBool True))]"
  have "doc_id r \<noteq> doc_id d" if "r \<in> set (find_docs ?q col)" for r
  proof
    assume "doc_id r = doc_id d"
    moreover from that have r: "r \<in> set col" "matches r ?q" by (simp_all add: find_docs_def)
    ultimately have "r = d" using wf_coll_inj [OF assms(1) _ assms(2)] by blast
    with r(2) have "\<not> eq_holds (map_of d ''is_closed'') (PBool True)"
      by (simp add: matches_def)
    with closed_eq_holds [OF assms(3)] show False by blast
  qed
  then show ?thesis
    unfolding get_details_run_def
    by (intro details_loop_kept [OF assms(1,2)]) blast
qed

lemma close_route_kept:
  assumes "wf_coll (routes s)" and "d \<in> set (routes s)" and "dict_get d ''is_closed'' = PBool True"
  shows "d \<in> set (routes (fst (close_route_run route_key now_utc s)))"
proof (cases "find_one [(''route_key'', Eq (PStr route_key))] (routes s)")
  case None
  with assms(2) show ?thesis by (simp add: close_route_run_def)
next
  case (Some rd)
  have mem: "rd \<in> set (routes s)" using Some find_one_Some_mem by blast
  show ?thesis
  proof (cases "dict_get rd ''is_closed'' = PBool True")
    case True
    with Some assms(2) show ?thesis by (simp add: close_route_run_def)
  next
    case False
    with assms(3) have "rd \<noteq> d" by auto
    with wf_coll_inj [OF assms(1) mem assms(2)] have ne: "doc_id d \<noteq> doc_id rd" by auto
    have mc: "d \<in> set (routes (fst (mark_closed rd now_utc s)))"
      using assms(2) ne by (simp add: mark_closed_by_id [OF assms(1) mem])
    from Some False assms(2) mc show ?thesis
      by (simp add: close_route_run_def Let_def split: sum.splits)
  qed
qed

lemma get_dispatches_routes: "routes (fst (get_dispatches_run route_key now_utc s)) = routes s"
  by (simp add: get_dispatches_run_def Let_def split: option.splits sum.splits prod.splits)

text \<open>
  C1, as amended. In a routes collection whose documents have distinct identifiers, a
  route with \<open>is_closed = true\<close> has, after any job, a document with the same
  identifier, \<open>is_closed = true\<close> and the same \<open>full_raw\<close>; after every job but route
  ingestion the document is the same in all its fields, \<open>minified_raw\<close> included.
\<close>

theorem closed_route_kept:
  assumes "wf_coll (routes s)" and "d \<in> set (routes s)" and "dict_get d ''is_closed'' = PBool True"
  shows "\<exists>d'\<in>set (routes (run_job j s)).
           doc_id d' = doc_id d \<and> dict_get d' ''is_closed'' = PBool True
           \<and> map_of d' ''full_raw'' = map_of d ''full_raw''
           \<and> ((\<forall>fetched date_str page now_utc. j \<noteq> GetRoutes fetched date_str page now_utc)
                \<longrightarrow> d' = d)"
proof (cases j)
  case (GetRoutes fetched date_str page now_utc)
  from upsert_routes_kept [OF assms(2), of fetched date_str page now_utc]
  obtain d' where d': "d' \<in> set (fst (upsert_routes_for_page fetched date_str page now_utc (routes s)))"
    "kept d d'" by blast
  from d'(2) assms(3) have "dict_get d' ''is_closed'' = PBool True"
    by (simp add: kept_def dict_get_def)
  with d' GetRoutes show ?thesis by (auto simp add: kept_def)
next
  case (GetDetails fetch date_str now_utc)
  with get_details_kept [OF assms, of fetch date_str now_utc] assms(3) show ?thesis by auto
next
  case (GetDispatches route_key now_utc)
  with assms(2,3) show ?thesis by (auto simp add: get_dispatches_routes)
next
  case (CloseRoute route_key now_utc)
  with close_route_kept [OF assms, of route_key now_utc] assms(3) show ?thesis by auto
next
  case (BackfillSubstatus sub_col)
  with assms(2,3) show ?thesis by auto
next
  case BackfillTipoOrden
  with assms(2,3) show ?thesis by auto
next
  case (FetchDispatches fuel api page)
  with assms(2,3) show ?thesis by auto
qed

theorem closed_route_kept_witness:
  "wf_coll (routes \<lparr>routes = [[(''_id'', POid 1), (''route_key'', PStr ''5''), (''is_closed'', PBool True),
         (''minified_raw'', PDict [(''number'', PInt 5)])]], dispatches = []\<rparr>)
   \<and> [(''_id'', POid 1), (''route_key'', PStr ''5''), (''is_closed'', PBool True),
         (''minified_raw'', PDict [(''number'', PInt 5)])]
       \<in> set (routes \<lparr>routes = [[(''_id'', POid 1), (''route_key'', PStr ''5''), (''is_closed'', PBool True),
         (''minified_raw'', PDict [(''number'', PInt 5)])]], dispatches = []\<rparr>)
   \<and> dict_get [(''_id'', POid 1), (''route_key'', PStr ''5''), (''is_closed'', PBool True),
         (''minified_raw'', PDict [(''number'', PInt 5)])] ''is_closed'' = PBool True
   \<and> (\<exists>d'\<in>set (routes (run_job (CloseRoute ''5'' 9)
             \<lparr>routes = [[(''_id'', POid 1), (''route_key'', PStr ''5''), (''is_closed'', PBool True),
                (''minified_raw'', PDict [(''number'', PInt 5)])]], dispatches = []\<rparr>)).
          d' = [(''_id'', POid 1), (''route_key'', PStr ''5''), (''is_closed'', PBool True),
                (''minified_raw'', PDict [(''number'', PInt 5)])])"
proof -
  let ?d = "[(''_id'', POid 1), (''route_key'', PStr ''5''), (''is_closed'', PBool True),
         (''minified_raw'', PDict [(''number'', PInt 5)])]"
  let ?s = "\<lparr>routes = [?d], dispatches = []\<rparr>"
  have h1: "wf_coll (routes ?s)" by code_simp
  have h2: "?d \<in> set (routes ?s)" by simp
  have h3: "dict_get ?d ''is_closed'' = PBool True" by code_simp
  have n: "\<forall>fetched date_str page now_utc. CloseRoute ''5'' 9 \<noteq> GetRoutes fetched date_str page now_utc"
    by simp
  from closed_route_kept [OF h1 h2 h3, of "CloseRoute ''5'' 9"] n
  have "\<exists>d'\<in>set (routes (run_job (CloseRoute ''5'' 9) ?s)). d' = ?d" by blast
  with h1 h2 h3 show ?thesis by blast
qed

text \<open>
  C1, as stated, fails: re-ingesting a listing page that contains a closed route overwrites
  its \<open>minified_raw\<close> (and \<open>date\<close>, \<open>page\<close>, \<open>last_refreshed_at\<close>), as the
  \<open>$set\<close> part of the upsert says; \<open>is_closed\<close> stays.
\<close>

theorem reingest_overwrites_minified_raw_counterexample:
  "upsert_routes_for_page (Inr [PDict [(''number'', PInt 5), (''status'', PStr ''new'')]]) ''2025-11-26'' 1 9
     [[(''_id'', POid 1), (''route_key'', PStr ''5''), (''is_closed'', PBool True),
       (''minified_raw'', PDict [(''number'', PInt 5), (''status'', PStr ''old'')])]]
   = ([[(''_id'', POid 1), (''route_key'', PStr ''5''), (''is_closed'', PBool True),
        (''minified_raw'', PDict [(''number'', PInt 5), (''status'', PStr ''new'')]),
        (''date'', PStr ''2025-11-26''), (''page'', PInt 1), (''last_refreshed_at'', PDate 9)]], Inr 1)"
  by code_simp

section \<open>Upserts by dispatch key\<close>

lemma unique_shape:
  assumes "dispatch_keys_unique col" and "d \<in> set col"
  shows "map_of d ''dispatch_key'' = None \<or> (\<exists>k. map_of d ''dispatch_key'' = Some (PStr k))"
proof -
  from assms have "case map_of d ''dispatch_key'' of None \<Rightarrow> True | Some (PStr s) \<Rightarrow> True | _ \<Rightarrow> False"
    unfolding dispatch_keys_unique_def list_all_iff by blast
  then show ?thesis by (rule key_shape)
qed

lemma matches_key:
  assumes "map_of d ''dispatch_key'' = None \<or> (\<exists>k. map_of d ''dispatch_key'' = Some (PStr k))"
  shows "matches d [(''dispatch_key'', Eq (PStr k))] \<longleftrightarrow> map_of d ''dispatch_key'' = Some (PStr k)"
  using assms by (auto simp add: matches_def eq_holds_def field_matches_def)

lemma unique_Cons:
  "dispatch_keys_unique (d # ds) \<Longrightarrow> dispatch_keys_unique ds"
  by (auto simp add: dispatch_keys_unique_def map_filter_Cons split: option.splits)

lemma unique_head_key:
  assumes "dispatch_keys_unique (d # ds)" and "map_of d ''dispatch_key'' = Some (PStr k)"
    and "x \<in> set ds"
  shows "map_of x ''dispatch_key'' \<noteq> Some (PStr k)"
proof
  assume "map_of x ''dispatch_key'' = Some (PStr k)"
  with assms(3) have "k \<in> set (List.map_filter dispatch_key_of ds)" by (rule key_in_map_filter)
  moreover from assms(2) have "dispatch_key_of d = Some k" by (simp add: dispatch_key_of_def)
  ultimately show False using assms(1)
    by (simp add: dispatch_keys_unique_def map_filter_Cons)
qed

lemma update_one_by_key:
  assumes "dispatch_keys_unique col"
  shows "update_one [(''dispatch_key'', Eq (PStr k))] st col =
         map (\<lambda>d. if map_of d ''dispatch_key'' = Some (PStr k) then set_fields st d else d) col"
  using assms
proof (induction col)
  case Nil
  then show ?case by simp
next
  case (Cons d ds)
  have sh: "map_of d ''dispatch_key'' = None \<or> (\<exists>k. map_of d ''dispatch_key'' = Some (PStr k))"
    by (rule unique_shape [OF Cons.prems]) simp
  show ?case
  proof (cases "map_of d ''dispatch_key'' = Some (PStr k)")
    case True
    have "\<forall>x\<in>set ds. map_of x ''dispatch_key'' \<noteq> Some (PStr k)"
      using unique_head_key [OF Cons.prems True] by blast
    then have "map (\<lambda>d. if map_of d ''dispatch_key'' = Some (PStr k) then set_fields st d else d) ds = ds"
      by (simp add: map_idI)
    with True matches_key [OF sh, of k] show ?thesis by simp
  next
    case False
    with matches_key [OF sh, of k] Cons.IH [OF unique_Cons [OF Cons.prems]] show ?thesis by simp
  qed
qed

lemma list_ex_key:
  assumes "dispatch_keys_unique col"
  shows "list_ex (\<lambda>d. matches d [(''dispatch_key'', Eq (PStr k))]) col \<longleftrightarrow> docs_with_key k col \<noteq> []"
proof -
  have "matches d [(''dispatch_key'', Eq (PStr k))] \<longleftrightarrow> map_of d ''dispatch_key'' = Some (PStr k)"
    if "d \<in> set col" for d
    by (rule matches_key) (rule unique_shape [OF assms that])
  then show ?thesis
    by (auto simp add: list_ex_iff docs_with_key_def filter_empty_conv)
qed

lemma upsert_present:
  assumes "dispatch_keys_unique col" and "docs_with_key k col \<noteq> []"
  shows "upsert_one [(''dispatch_key'', Eq (PStr k))] st soi col =
         map (\<lambda>d. if map_of d ''dispatch_key'' = Some (PStr k) then set_fields st d else d) col"
  using assms list_ex_key [OF assms(1), of k] update_one_by_key [OF assms(1), of k st]
  by (simp add: upsert_one_def)

lemma upsert_absent:
  assumes "dispatch_keys_unique col" and "docs_with_key k col = []"
  shows "upsert_one [(''dispatch_key'', Eq (PStr k))] st soi col =
         col @ [set_fields soi (set_fields st
                  [(''_id'', POid (Suc (max_oid col))), (''dispatch_key'', PStr k)])]"
  using assms list_ex_key [OF assms(1), of k]
  by (simp add: upsert_one_def eq_fields_def)

lemma map_filter_keys_map:
  assumes "\<And>d. map_of (f d) ''dispatch_key'' = map_of d ''dispatch_key''"
  shows "List.map_filter dispatch_key_of (map f col) = List.map_filter dispatch_key_of col"
proof -
  have "dispatch_key_of (f d) = dispatch_key_of d" for d
    by (simp add: dispatch_key_of_def assms)
  then show ?thesis
    by (induction col) (simp_all add: map_filter_Cons split: option.splits)
qed

lemma unique_map:
  assumes "dispatch_keys_unique col"
    and "\<And>d. map_of (f d) ''dispatch_key'' = map_of d ''dispatch_key''"
  shows "dispatch_keys_unique (map f col)"
  using assms(1) map_filter_keys_map [of f col, OF assms(2)]
  by (simp add: dispatch_keys_unique_def list_all_iff assms(2))

lemma map_filter_append:
  "List.map_filter f (xs @ ys) = List.map_filter f xs @ List.map_filter f ys"
  by (simp add: List.map_filter_def)

lemma docs_with_key_empty:
  "docs_with_key k col = [] \<longleftrightarrow> k \<notin> set (List.map_filter dispatch_key_of col)"
proof (induction col)
  case Nil
  show ?case by (simp add: docs_with_key_def List.map_filter_def)
next
  case (Cons d ds)
  show ?case
  proof (cases "map_of d ''dispatch_key'' = Some (PStr k)")
    case True
    then show ?thesis by (simp add: docs_with_key_def map_filter_Cons dispatch_key_of_def)
  next
    case False
    then have "dispatch_key_of d \<noteq> Some k"
      by (auto simp add: dispatch_key_of_def split: option.splits pyval.splits)
    with False Cons show ?thesis
      by (auto simp add: docs_with_key_def map_filter_Cons split: option.splits)
  qed
qed

lemma unique_snoc:
  assumes "dispatch_keys_unique col" and "docs_with_key k col = []"
    and "map_of n ''dispatch_key'' = Some (PStr k)"
  shows "dispatch_keys_unique (col @ [n])"
proof -
  from assms(2) have "k \<notin> set (List.map_filter dispatch_key_of col)"
    by (simp add: docs_with_key_empty)
  moreover have "List.map_filter dispatch_key_of [n] = [k]"
    using assms(3) by (simp add: map_filter_Cons dispatch_key_of_def List.map_filter_def)
  ultimately show ?thesis
    using assms(1,3) by (simp add: dispatch_keys_unique_def map_filter_append)
qed

lemma docs_with_key_le1:
  assumes "dispatch_keys_unique col"
  shows "length (docs_with_key k col) \<le> 1"
  using assms
proof (induction col)
  case Nil
  show ?case by (simp add: docs_with_key_def)
next
  case (Cons d ds)
  note IH = Cons.IH [OF unique_Cons [OF Cons.prems]]
  show ?case
  proof (cases "map_of d ''dispatch_key'' = Some (PStr k)")
    case True
    have "\<forall>x\<in>set ds. map_of x ''dispatch_key'' \<noteq> Some (PStr k)"
      using unique_head_key [OF Cons.prems True] by blast
    then have "docs_with_key k ds = []" by (simp add: docs_with_key_def filter_empty_conv)
    with True show ?thesis by (simp add: docs_with_key_def)
  next
    case False
    with IH show ?thesis by (simp add: docs_with_key_def)
  qed
qed

end
